theory Spec2Isabelle
  imports Main
begin

section \<open>The command-line driver of nix-review (\<^verbatim>\<open>nix_review/cli.py\<close>)\<close>

text \<open>
  The development embeds \<^verbatim>\<open>parse_pr_numbers\<close>, \<^verbatim>\<open>pr_command\<close>, \<^verbatim>\<open>rev_command\<close>,
  \<^verbatim>\<open>parse_args\<close> and \<^verbatim>\<open>main\<close>. Everything the functions do beyond returning a value
  is explicit: what is printed and every call to a collaborator is an event of a trace,
  and an exception is the \<open>Inl\<close> value of a sum.
\<close>

subsection \<open>Exceptions and events\<close>

text \<open>
  The exceptions the driver raises, catches or lets pass. \<open>SystemExit\<close> carries the
  status given to \<^verbatim>\<open>sys.exit\<close>; \<open>OtherException\<close> stands for any exception class that
  is neither of the named ones, with its class name.
\<close>

datatype exn =
    SystemExit int
  | CalledProcessError
  | ValueError
  | OtherException string

text \<open>
  A workspace as the driver sees it: the name it was created with, the path of its
  checkout (\<^verbatim>\<open>worktree.worktree_dir\<close>) and the search path \<^verbatim>\<open>worktree.nixpkgs_path()\<close>
  returns.
\<close>

datatype Worktree = Worktree (name: string) (worktree_dir: string) (nixpkgs_path: string)

datatype CheckoutOption = MERGE | COMMIT

text \<open>
  The keyword arguments of a \<^verbatim>\<open>Review(...)\<close> call, in the order \<^verbatim>\<open>worktree_dir\<close>,
  \<^verbatim>\<open>build_args\<close>, \<^verbatim>\<open>api_token\<close>, \<^verbatim>\<open>use_ofborg_eval\<close>, \<^verbatim>\<open>only_packages\<close>, \<^verbatim>\<open>checkout\<close>.
  \<open>None\<close> is a keyword the call does not pass; a passed \<^verbatim>\<open>api_token\<close> may itself be
  Python's \<^verbatim>\<open>None\<close>.
\<close>

datatype Review =
  Review string string "string option option" "bool option" "string set" "CheckoutOption option"

text \<open>
  The trace of a run. \<open>Print\<close> and \<open>PrintErr\<close> are a line on the output and on the
  error stream. The other events are the calls to the collaborators, recorded when the
  call is made: \<open>WorktreeNew\<close> is the call that creates a workspace, \<open>Enter\<close> records that
  the enclosing scope now holds it, \<open>Exit\<close> is its release when that scope unwinds;
  \<open>SetEnv\<close> is an assignment to \<^verbatim>\<open>os.environ\<close>.
\<close>

datatype event =
    Print string
  | PrintErr string
  | GitRevParse string
  | WorktreeNew string
  | Enter Worktree
  | BuildPr Review int
  | ReviewCommit Review string string
  | SetEnv string string
  | NixShell "string list"
  | Exit Worktree
  | BuildenvEnter
  | BuildenvExit

subsection \<open>Python's \<^verbatim>\<open>int(str)\<close> and the range pattern\<close>

text \<open>
  A \<open>char\<close> stands for a code point below 256. On these, \<^verbatim>\<open>\d\<close> matches the ten ASCII
  digits only, and the white space that \<^verbatim>\<open>int\<close> strips is TAB, LF, VT, FF, CR, SPACE,
  NEL (133) and NBSP (160).
\<close>

definition is_digit :: "char \<Rightarrow> bool" where
  "is_digit c = (c \<in> set ''0123456789'')"

definition digit_val :: "char \<Rightarrow> int" where
  "digit_val c = int (of_char c) - 48"

definition py_isspace :: "char \<Rightarrow> bool" where
  "py_isspace c = ((of_char c :: nat) \<in> {9, 10, 11, 12, 13, 32, 133, 160})"

text \<open>
  The digit scan of \<^verbatim>\<open>int\<close> in base 10: digits accumulate, a single underscore may stand
  between two digits, and the scan stops at the first other character. \<open>prev\<close> is the
  character read last; an underscore after an underscore, or as the last character of
  the scan, is an error.
\<close>

fun scan_digits :: "string \<Rightarrow> char \<Rightarrow> int \<Rightarrow> (int \<times> string) option" where
  "scan_digits [] prev acc = (if prev = CHR ''_'' then None else Some (acc, []))"
| "scan_digits (c # cs) prev acc =
     (if is_digit c then scan_digits cs c (10 * acc + digit_val c)
      else if c = CHR ''_'' then (if prev = CHR ''_'' then None else scan_digits cs c acc)
      else if prev = CHR ''_'' then None
      else Some (acc, c # cs))"

text \<open>
  \<^verbatim>\<open>int(s)\<close>: leading white space, an optional sign, a digit first, the scan, trailing
  white space and then the end of the string. \<open>None\<close> is \<^verbatim>\<open>ValueError\<close>. The integers are
  unbounded, and no limit is put on the number of digits.
\<close>

definition py_int :: "string \<Rightarrow> int option" where
  "py_int s =
     (let s1 = dropWhile py_isspace s;
          neg = (s1 \<noteq> [] \<and> hd s1 = CHR ''-'');
          s2 = (if s1 \<noteq> [] \<and> (hd s1 = CHR ''+'' \<or> hd s1 = CHR ''-'') then tl s1 else s1)
      in if s2 = [] then None
         else if is_digit (hd s2) then
              (case scan_digits s2 (CHR 0x00) 0 of
                 None \<Rightarrow> None
               | Some (v, rest) \<Rightarrow>
                   if dropWhile py_isspace rest = [] then Some (if neg then - v else v)
                   else None)
         else None)"

text \<open>
  \<^verbatim>\<open>re.match(r"(\d+)-(\d+)", arg)\<close>: the pattern is anchored at the start of the token
  only. Both groups are greedy, and a shorter first group can never be followed by the
  dash, so the match is the longest run of digits, a dash, and the longest run of digits
  after it, each run non-empty. The result is the pair of the two groups.
\<close>

definition re_match_range :: "string \<Rightarrow> (string \<times> string) option" where
  "re_match_range arg =
     (let g1 = takeWhile is_digit arg; r = dropWhile is_digit arg
      in if g1 = [] then None
         else (case r of
                 [] \<Rightarrow> None
               | c # r' \<Rightarrow>
                   if c \<noteq> CHR ''-'' then None
                   else (let g2 = takeWhile is_digit r'
                         in if g2 = [] then None else Some (g1, g2))))"

text \<open>\<^verbatim>\<open>range(lo, hi)\<close> on Python's unbounded integers: \<open>lo, \<dots>, hi - 1\<close>, empty when \<open>hi \<le> lo\<close>.\<close>

definition py_range :: "int \<Rightarrow> int \<Rightarrow> int list" where
  "py_range lo hi = [lo .. hi - 1]"

subsection \<open>\<^verbatim>\<open>parse_pr_numbers\<close>\<close>

text \<open>
  The loop of \<^verbatim>\<open>parse_pr_numbers\<close> over the remaining tokens, with the list \<^verbatim>\<open>prs\<close> built so
  far. The two \<^verbatim>\<open>int\<close> calls on the groups of a match stand outside the \<^verbatim>\<open>try\<close>, so a
  \<^verbatim>\<open>ValueError\<close> there would propagate. In the \<^verbatim>\<open>except\<close> branch the message is formatted
  from \<^verbatim>\<open>m\<close>, which is \<^verbatim>\<open>None\<close> there, and the process exits with status 1.
\<close>

fun parse_loop :: "string list \<Rightarrow> int list \<Rightarrow> event list \<times> (exn + int list)" where
  "parse_loop [] prs = ([], Inr prs)"
| "parse_loop (arg # args) prs =
     (case re_match_range arg of
        Some (g1, g2) \<Rightarrow>
          (case py_int g1 of
             None \<Rightarrow> ([], Inl ValueError)
           | Some lo \<Rightarrow>
               (case py_int g2 of
                  None \<Rightarrow> ([], Inl ValueError)
                | Some hi \<Rightarrow> parse_loop args (prs @ py_range lo hi)))
      | None \<Rightarrow>
          (case py_int arg of
             Some n \<Rightarrow> parse_loop args (prs @ [n])
           | None \<Rightarrow> ([PrintErr ''expected number, got None''], Inl (SystemExit 1))))"

definition parse_pr_numbers :: "string list \<Rightarrow> event list \<times> (exn + int list)" where
  "parse_pr_numbers number_args = parse_loop number_args []"

subsection \<open>The collaborators of the orchestrators\<close>

text \<open>
  The parsed command line. \<^verbatim>\<open>args.func\<close> is \<^verbatim>\<open>pr_command\<close> for \<open>Pr\<close> and \<^verbatim>\<open>rev_command\<close>
  for \<open>Rev\<close>; \<^verbatim>\<open>build_args\<close> and \<^verbatim>\<open>package\<close> are the flags both subcommands share.
\<close>

datatype Namespace =
    Pr (token: "string option") (eval: string) (checkout: string) (number: "string list")
       (build_args: string) (package: "string list")
  | Rev (branch: string) (commit: string) (build_args: string) (package: "string list")

text \<open>
  The collaborators are parameters of the model. Each answers with a value or with the
  exception it raises. A collaborator that is called in a loop also receives the number
  of calls made to it before, so that its answer may differ from call to call.
  \<^item> \<open>git_rev_parse ref\<close>: \<^verbatim>\<open>git rev-parse --verify ref\<close> run with \<^verbatim>\<open>check=True\<close>, and the
    decoding of its output;
  \<^item> \<open>Worktree_new i name\<close>: creating the workspace \<^verbatim>\<open>Worktree(name)\<close> and entering it;
  \<^item> \<open>build_pr i review pr\<close>: constructing the \<^verbatim>\<open>Review\<close> and running \<^verbatim>\<open>build_pr(pr)\<close>,
    which returns the built attributes;
  \<^item> \<open>review_commit review branch commit\<close>: \<^verbatim>\<open>review.review_commit(branch, commit)\<close>;
  \<^item> \<open>nix_shell j attrs\<close>: the shell launcher.
\<close>

record env =
  git_rev_parse :: "string \<Rightarrow> exn + string"
  Worktree_new :: "nat \<Rightarrow> string \<Rightarrow> exn + Worktree"
  build_pr :: "nat \<Rightarrow> Review \<Rightarrow> int \<Rightarrow> exn + string list"
  review_commit :: "Review \<Rightarrow> string \<Rightarrow> string \<Rightarrow> exn option"
  nix_shell :: "nat \<Rightarrow> string list \<Rightarrow> exn option"

subsection \<open>Formatting\<close>

text \<open>The decimal text of an integer, as an f-string writes it.\<close>

fun str_nat :: "nat \<Rightarrow> string" where
  "str_nat n =
     (if n < 10 then [char_of (48 + n)]
      else str_nat (n div 10) @ [char_of (48 + n mod 10)])"

declare str_nat.simps [simp del]

definition str_int :: "int \<Rightarrow> string" where
  "str_int i = (if i < 0 then CHR ''-'' # str_nat (nat (- i)) else str_nat (nat i))"

definition pr_url :: "int \<Rightarrow> string" where
  "pr_url pr = ''https://github.com/NixOS/nixpkgs/pull/'' @ str_int pr"

definition pr_worktree_name :: "int \<Rightarrow> string" where
  "pr_worktree_name pr = ''pr-'' @ str_int pr"

subsection \<open>\<^verbatim>\<open>pr_command\<close>\<close>

type_synonym pr_context = "int \<times> Worktree \<times> string list"

definition pr_review :: "Namespace \<Rightarrow> Worktree \<Rightarrow> Review" where
  "pr_review args w =
     Review (worktree_dir w) (build_args args) (Some (token args))
       (Some (eval args = ''ofborg''))
       (set (package args))
       (Some (if checkout args = ''merge'' then MERGE else COMMIT))"

text \<open>
  The first loop of \<^verbatim>\<open>pr_command\<close>, lines 39 to 55. \<open>i\<close> counts the iterations done,
  \<open>stack\<close> is the \<^verbatim>\<open>ExitStack\<close> with the workspace entered last at its head, \<open>contexts\<close>
  the list of the same name. The workspace is created outside the \<^verbatim>\<open>try\<close>; inside it,
  only \<^verbatim>\<open>subprocess.CalledProcessError\<close> is caught.
\<close>

fun build_loop ::
  "env \<Rightarrow> Namespace \<Rightarrow> nat \<Rightarrow> int list \<Rightarrow> Worktree list \<Rightarrow> pr_context list
     \<Rightarrow> event list \<times> Worktree list \<times> (exn + pr_context list)" where
  "build_loop E args i [] stack contexts = ([], stack, Inr contexts)"
| "build_loop E args i (pr # prs) stack contexts =
     (case Worktree_new E i (pr_worktree_name pr) of
        Inl e \<Rightarrow> ([WorktreeNew (pr_worktree_name pr)], stack, Inl e)
      | Inr w \<Rightarrow>
          (let called = [WorktreeNew (pr_worktree_name pr), Enter w, BuildPr (pr_review args w) pr]
           in case build_pr E i (pr_review args w) pr of
                Inr attrs \<Rightarrow>
                  (case build_loop E args (Suc i) prs (w # stack) (contexts @ [(pr, w, attrs)]) of
                     (evs, r) \<Rightarrow> (called @ evs, r))
              | Inl e \<Rightarrow>
                  if e = CalledProcessError then
                    (case build_loop E args (Suc i) prs (w # stack) contexts of
                       (evs, r) \<Rightarrow>
                         (called @ [PrintErr (pr_url pr @ '' failed to build'')] @ evs, r))
                  else (called, w # stack, Inl e)))"

text \<open>The second loop, lines 57 to 60; \<open>j\<close> counts the shells launched.\<close>

fun shell_loop :: "env \<Rightarrow> nat \<Rightarrow> pr_context list \<Rightarrow> event list \<times> exn option" where
  "shell_loop E j [] = ([], None)"
| "shell_loop E j ((pr, w, attrs) # contexts) =
     (let handoff = [Print (pr_url pr), SetEnv ''NIX_PATH'' (nixpkgs_path w), NixShell attrs]
      in case nix_shell E j attrs of
           Some e \<Rightarrow> (handoff, Some e)
         | None \<Rightarrow> (case shell_loop E (Suc j) contexts of (evs, r) \<Rightarrow> (handoff @ evs, r)))"

text \<open>
  The body of the \<^verbatim>\<open>with ExitStack()\<close> block: both loops and the final comparison. It
  returns the stack as it stands when the block is left.
\<close>

definition pr_body ::
  "env \<Rightarrow> Namespace \<Rightarrow> int list \<Rightarrow> event list \<times> Worktree list \<times> exn option" where
  "pr_body E args prs =
     (case build_loop E args 0 prs [] [] of
        (evs, stack, Inl e) \<Rightarrow> (evs, stack, Some e)
      | (evs, stack, Inr contexts) \<Rightarrow>
          (case shell_loop E 0 contexts of
             (evs', Some e) \<Rightarrow> (evs @ evs', stack, Some e)
           | (evs', None) \<Rightarrow>
               (evs @ evs', stack,
                if length contexts \<noteq> length prs then Some (SystemExit 1) else None)))"

text \<open>
  \<^verbatim>\<open>pr_command\<close>. The result is the trace and the exception that leaves the function, if
  any. Leaving the \<^verbatim>\<open>with\<close> block, normally or not, unwinds the stack from its head; a
  workspace's exit does not swallow the exception. A namespace without the attribute
  \<^verbatim>\<open>number\<close> raises \<^verbatim>\<open>AttributeError\<close>.
\<close>

fun pr_command :: "env \<Rightarrow> Namespace \<Rightarrow> event list \<times> exn option" where
  "pr_command E (Pr tok ev co num ba pk) =
     (let args = Pr tok ev co num ba pk
      in case parse_pr_numbers (number args) of
           (evs, Inl e) \<Rightarrow> (evs, Some e)
         | (evs, Inr prs) \<Rightarrow>
             (case pr_body E args prs of
                (evs', stack, r) \<Rightarrow> (evs @ evs' @ map Exit stack, r)))"
| "pr_command E (Rev br cm ba pk) = ([], Some (OtherException ''AttributeError''))"

subsection \<open>\<^verbatim>\<open>rev_command\<close>\<close>

definition rev_review :: "Namespace \<Rightarrow> Worktree \<Rightarrow> Review" where
  "rev_review args w =
     Review (worktree_dir w) (build_args args) None None (set (package args)) None"

fun rev_command :: "env \<Rightarrow> Namespace \<Rightarrow> event list \<times> exn option" where
  "rev_command E (Rev br cm ba pk) =
     (let args = Rev br cm ba pk
      in case git_rev_parse E (commit args) of
           Inl e \<Rightarrow> ([GitRevParse (commit args)], Some e)
         | Inr c \<Rightarrow>
             (case Worktree_new E 0 (''rev-'' @ c) of
                Inl e \<Rightarrow> ([GitRevParse (commit args), WorktreeNew (''rev-'' @ c)], Some e)
              | Inr w \<Rightarrow>
                  ([GitRevParse (commit args), WorktreeNew (''rev-'' @ c), Enter w,
                    ReviewCommit (rev_review args w) (branch args) c, Exit w],
                   review_commit E (rev_review args w) (branch args) c)))"
| "rev_command E (Pr tok ev co num ba pk) = ([], Some (OtherException ''AttributeError''))"

subsection \<open>\<^verbatim>\<open>parse_args\<close> and \<^verbatim>\<open>main\<close>\<close>

text \<open>
  How \<^verbatim>\<open>argparse\<close> reads a command line is a parameter; it answers with the namespace or
  with the \<^verbatim>\<open>SystemExit\<close> of a rejected command line. What the source fixes itself is
  written out: \<^verbatim>\<open>subparsers.required = True\<close>, so the empty command line, which names no
  subcommand, is an error, and \<^verbatim>\<open>argparse\<close> ends the process with status 2.
\<close>

definition parse_args ::
  "(string \<Rightarrow> string list \<Rightarrow> exn + Namespace) \<Rightarrow> string \<Rightarrow> string list \<Rightarrow> exn + Namespace" where
  "parse_args argparse command args =
     (if args = [] then Inl (SystemExit 2) else argparse command args)"

definition func :: "Namespace \<Rightarrow> env \<Rightarrow> event list \<times> exn option" where
  "func args E = (case args of Pr _ _ _ _ _ _ \<Rightarrow> pr_command E args | Rev _ _ _ _ \<Rightarrow> rev_command E args)"

text \<open>
  \<^verbatim>\<open>main\<close>: the arguments are parsed first, then \<^verbatim>\<open>Buildenv()\<close> is entered and left around
  the call of the subcommand.

  Modelled from the spec: \<^verbatim>\<open>Buildenv\<close> is not among the sources. Its scope is entered once
  and torn down on every way out of the block, and it does not swallow the exception.
\<close>

definition main ::
  "env \<Rightarrow> (string \<Rightarrow> string list \<Rightarrow> exn + Namespace) \<Rightarrow> string \<Rightarrow> string list
     \<Rightarrow> event list \<times> exn option" where
  "main E argparse command raw_args =
     (case parse_args argparse command raw_args of
        Inl e \<Rightarrow> ([], Some e)
      | Inr args \<Rightarrow>
          (case func args E of (evs, r) \<Rightarrow> (BuildenvEnter # evs @ [BuildenvExit], r)))"


section \<open>The vocabulary of the specification\<close>

subsection \<open>Tokens\<close>

text \<open>The number a non-empty run of digits denotes.\<close>

definition digits_value :: "string \<Rightarrow> int" where
  "digits_value ds = foldl (\<lambda>acc c. 10 * acc + digit_val c) 0 ds"

definition numeral_token :: "string \<Rightarrow> bool" where
  "numeral_token ds = (ds \<noteq> [] \<and> list_all is_digit ds)"

text \<open>
  A token is well formed when it starts with a range or is an integer literal. Its
  expansion is the half-open interval between the two bounds of the range, or the one
  integer of the literal.
\<close>

definition well_formed_token :: "string \<Rightarrow> bool" where
  "well_formed_token tok = (re_match_range tok \<noteq> None \<or> py_int tok \<noteq> None)"

definition token_expansion :: "string \<Rightarrow> int list" where
  "token_expansion tok =
     (case re_match_range tok of
        Some (low, high) \<Rightarrow> py_range (digits_value low) (digits_value high)
      | None \<Rightarrow> (case py_int tok of Some n \<Rightarrow> [n] | None \<Rightarrow> []))"

subsection \<open>What happens to one change of a batch\<close>

text \<open>
  The answer of the collaborators to the \<open>i\<close>-th change of a batch: the workspace could
  not be acquired, the workspace was acquired and the build raised, or the change built.
\<close>

datatype outcome =
    AcquireRaised exn
  | BuildRaised Worktree exn
  | Built Worktree "string list"

definition change_outcome :: "env \<Rightarrow> Namespace \<Rightarrow> nat \<Rightarrow> int \<Rightarrow> outcome" where
  "change_outcome E args i pr =
     (case Worktree_new E i (pr_worktree_name pr) of
        Inl e \<Rightarrow> AcquireRaised e
      | Inr w \<Rightarrow>
          (case build_pr E i (pr_review args w) pr of
             Inl e \<Rightarrow> BuildRaised w e
           | Inr attrs \<Rightarrow> Built w attrs))"

fun outcomes :: "env \<Rightarrow> Namespace \<Rightarrow> nat \<Rightarrow> int list \<Rightarrow> (int \<times> outcome) list" where
  "outcomes E args i [] = []"
| "outcomes E args i (pr # prs) = (pr, change_outcome E args i pr) # outcomes E args (Suc i) prs"



fun fatal :: "int \<times> outcome \<Rightarrow> exn option" where
  "fatal (pr, AcquireRaised e) = Some e"
| "fatal (pr, BuildRaised w e) = (if e = CalledProcessError then None else Some e)"
| "fatal (pr, Built w attrs) = None"


text \<open>The successes of a batch, the workspaces it acquired, and what it traces per change.\<close>

fun retained :: "(int \<times> outcome) list \<Rightarrow> pr_context list" where
  "retained [] = []"
| "retained ((pr, Built w attrs) # cs) = (pr, w, attrs) # retained cs"
| "retained (_ # cs) = retained cs"

fun acquired :: "(int \<times> outcome) list \<Rightarrow> Worktree list" where
  "acquired [] = []"
| "acquired ((pr, AcquireRaised e) # cs) = acquired cs"
| "acquired ((pr, BuildRaised w e) # cs) = w # acquired cs"
| "acquired ((pr, Built w attrs) # cs) = w # acquired cs"

fun build_events :: "Namespace \<Rightarrow> int \<times> outcome \<Rightarrow> event list" where
  "build_events args (pr, AcquireRaised e) = [WorktreeNew (pr_worktree_name pr)]"
| "build_events args (pr, BuildRaised w e) =
     [WorktreeNew (pr_worktree_name pr), Enter w, BuildPr (pr_review args w) pr] @
     (if e = CalledProcessError then [PrintErr (pr_url pr @ '' failed to build'')] else [])"
| "build_events args (pr, Built w attrs) =
     [WorktreeNew (pr_worktree_name pr), Enter w, BuildPr (pr_review args w) pr]"

text \<open>
  The loop stops at the first change that ends the batch: \<open>attempted\<close> are the changes
  the loop got to, that change included, and \<open>first_fatal\<close> is the exception that ends
  the batch, if there is one.
\<close>

fun attempted :: "(int \<times> outcome) list \<Rightarrow> (int \<times> outcome) list" where
  "attempted [] = []"
| "attempted (c # cs) = (case fatal c of Some e \<Rightarrow> [c] | None \<Rightarrow> c # attempted cs)"

fun first_fatal :: "(int \<times> outcome) list \<Rightarrow> exn option" where
  "first_fatal [] = None"
| "first_fatal (c # cs) = (case fatal c of Some e \<Rightarrow> Some e | None \<Rightarrow> first_fatal cs)"

text \<open>
  A shell handoff: the URL is printed, the search path is set to the path of the
  success's workspace, the launcher is called with the success's attributes.
\<close>

fun handoff :: "pr_context \<Rightarrow> event list" where
  "handoff (pr, w, attrs) =
     [Print (pr_url pr), SetEnv ''NIX_PATH'' (nixpkgs_path w), NixShell attrs]"



subsection \<open>Reading a trace\<close>

fun entered :: "event list \<Rightarrow> Worktree list" where
  "entered [] = []"
| "entered (Enter w # evs) = w # entered evs"
| "entered (_ # evs) = entered evs"

fun exited :: "event list \<Rightarrow> Worktree list" where
  "exited [] = []"
| "exited (Exit w # evs) = w # exited evs"
| "exited (_ # evs) = exited evs"

fun launched :: "event list \<Rightarrow> string list list" where
  "launched [] = []"
| "launched (NixShell attrs # evs) = attrs # launched evs"
| "launched (_ # evs) = launched evs"

fun plain :: "event \<Rightarrow> bool" where
  "plain (Exit w) = False"
| "plain BuildenvEnter = False"
| "plain BuildenvExit = False"
| "plain _ = True"

fun is_exit :: "event \<Rightarrow> bool" where
  "is_exit (Exit w) = True"
| "is_exit _ = False"

fun is_buildenv :: "event \<Rightarrow> bool" where
  "is_buildenv BuildenvEnter = True"
| "is_buildenv BuildenvExit = True"
| "is_buildenv _ = False"

subsection \<open>A sample environment\<close>

text \<open>
  Every workspace can be acquired; change 2 fails to build, change 3 makes the pipeline
  raise \<^verbatim>\<open>KeyboardInterrupt\<close>, every other change builds the attribute \<^verbatim>\<open>hello\<close>; the
  ref \<^verbatim>\<open>nosuchref\<close> does not resolve.
\<close>

definition sample_env :: env where
  "sample_env =
     \<lparr> git_rev_parse = (\<lambda>r. if r = ''nosuchref'' then Inl CalledProcessError else Inr ''0123abc''),
       Worktree_new = (\<lambda>i nm. Inr (Worktree nm (''/review/'' @ nm) (''nixpkgs=/review/'' @ nm))),
       build_pr = (\<lambda>i rv pr. if pr = 2 then Inl CalledProcessError
                             else if pr = 3 then Inl (OtherException ''KeyboardInterrupt'')
                             else Inr [''hello'']),
       review_commit = (\<lambda>rv b c. None),
       nix_shell = (\<lambda>j attrs. None) \<rparr>"

definition sample_argparse :: "string \<Rightarrow> string list \<Rightarrow> exn + Namespace" where
  "sample_argparse command args =
     (if args = [''rev'', ''HEAD''] then Inr (Rev ''master'' ''HEAD'' [] [])
      else if args \<noteq> [] \<and> hd args = ''pr'' then Inr (Pr None ''ofborg'' ''merge'' (tl args) [] [])
      else Inl (SystemExit 2))"

section \<open>The range parser\<close>

subsection \<open>Digits, integers and the pattern\<close>

lemma is_digit_not_special:
  "is_digit c \<Longrightarrow> c \<noteq> CHR ''_''" "is_digit c \<Longrightarrow> c \<noteq> CHR ''-''"
  "is_digit c \<Longrightarrow> c \<noteq> CHR ''+''" "is_digit c \<Longrightarrow> \<not> py_isspace c"
  by (auto simp: is_digit_def py_isspace_def)

lemma scan_digits_run:
  "list_all is_digit ds \<Longrightarrow> ds = [] \<longrightarrow> prev \<noteq> CHR ''_'' \<Longrightarrow>
   scan_digits ds prev acc = Some (foldl (\<lambda>acc c. 10 * acc + digit_val c) acc ds, [])"
  by (induction ds arbitrary: prev acc) (auto simp: is_digit_not_special)

lemma py_int_numeral:
  assumes "numeral_token ds"
  shows "py_int ds = Some (digits_value ds)"
proof -
  obtain d ds' where ds: "ds = d # ds'"
    using assms by (cases ds) (auto simp: numeral_token_def)
  have d: "is_digit d" and all: "list_all is_digit ds"
    using assms ds by (auto simp: numeral_token_def)
  have dw: "dropWhile py_isspace ds = ds"
    using d ds by (simp add: is_digit_not_special)
  have sc: "scan_digits ds (CHR 0x00) 0 = Some (digits_value ds, [])"
    using scan_digits_run[OF all, of "CHR 0x00" 0] ds by (simp add: digits_value_def)
  show ?thesis
    unfolding py_int_def Let_def dw using sc d ds by (simp add: is_digit_not_special)
qed

lemma re_match_range_groups:
  assumes "re_match_range arg = Some (g1, g2)"
  shows "numeral_token g1 \<and> numeral_token g2"
proof -
  have "list_all is_digit (takeWhile is_digit xs)" for xs
    by (simp add: list_all_iff) (meson set_takeWhileD)
  then show ?thesis
    using assms
    by (auto simp: re_match_range_def Let_def numeral_token_def split: list.splits if_splits)
qed

lemma re_match_range_prefix:
  assumes "numeral_token lo" "numeral_token hi"
  shows "re_match_range (lo @ CHR ''-'' # hi @ rest) = Some (lo, hi @ takeWhile is_digit rest)"
proof -
  have lo: "\<forall>c\<in>set lo. is_digit c" and hi: "\<forall>c\<in>set hi. is_digit c"
    using assms by (auto simp: numeral_token_def list_all_iff)
  have nd: "\<not> is_digit CHR ''-''" by (simp add: is_digit_def)
  have a: "takeWhile is_digit (lo @ CHR ''-'' # hi @ rest) = lo"
    using lo nd by (simp add: takeWhile_append2)
  have b: "dropWhile is_digit (lo @ CHR ''-'' # hi @ rest) = CHR ''-'' # hi @ rest"
    using lo nd by (simp add: dropWhile_append2)
  have c: "takeWhile is_digit (hi @ rest) = hi @ takeWhile is_digit rest"
    using hi by (simp add: takeWhile_append2)
  show ?thesis
    using assms a b c by (simp add: re_match_range_def Let_def numeral_token_def)
qed

lemma numeral_token_append_digits:
  "numeral_token hi \<Longrightarrow> numeral_token (hi @ takeWhile is_digit rest)"
  by (auto simp: numeral_token_def list_all_iff dest: set_takeWhileD)

lemma parse_loop_step:
  assumes "well_formed_token arg"
  shows "parse_loop (arg # args) prs = parse_loop args (prs @ token_expansion arg)"
proof (cases "re_match_range arg")
  case None
  then obtain n where "py_int arg = Some n"
    using assms by (auto simp: well_formed_token_def)
  with None show ?thesis by (simp add: token_expansion_def)
next
  case (Some g)
  obtain g1 g2 where g: "g = (g1, g2)" by (cases g)
  have "numeral_token g1" "numeral_token g2"
    using re_match_range_groups Some g by auto
  then have "py_int g1 = Some (digits_value g1)" "py_int g2 = Some (digits_value g2)"
    by (simp_all add: py_int_numeral)
  with Some g show ?thesis by (simp add: token_expansion_def)
qed

lemma parse_loop_well_formed:
  "list_all well_formed_token toks \<Longrightarrow>
   parse_loop toks prs = ([], Inr (prs @ concat (map token_expansion toks)))"
proof (induction toks arbitrary: prs)
  case Nil
  show ?case by simp
next
  case (Cons tok toks)
  from Cons.prems have wf: "well_formed_token tok" and rest: "list_all well_formed_token toks"
    by simp_all
  have "parse_loop (tok # toks) prs = parse_loop toks (prs @ token_expansion tok)"
    by (rule parse_loop_step[OF wf])
  also have "\<dots> = ([], Inr ((prs @ token_expansion tok) @ concat (map token_expansion toks)))"
    by (rule Cons.IH[OF rest])
  finally show ?case by simp
qed

lemma parse_stops_at_malformed_token:
  assumes "list_all well_formed_token pre" "\<not> well_formed_token tok"
  shows "parse_pr_numbers (pre @ tok # post) =
           ([PrintErr ''expected number, got None''], Inl (SystemExit 1))"
proof -
  have "parse_loop (pre @ tok # post) prs =
          ([PrintErr ''expected number, got None''], Inl (SystemExit 1))" for prs
    using assms(1)
  proof (induction pre arbitrary: prs)
    case Nil
    from assms(2) have "re_match_range tok = None" and "py_int tok = None"
      by (cases "re_match_range tok"; simp add: well_formed_token_def)+
    then show ?case by simp
  next
    case (Cons p pre)
    from Cons.prems have wf: "well_formed_token p" and rest: "list_all well_formed_token pre"
      by simp_all
    have "parse_loop ((p # pre) @ tok # post) prs =
            parse_loop (pre @ tok # post) (prs @ token_expansion p)"
      using parse_loop_step[OF wf] by simp
    then show ?case using Cons.IH[OF rest] by simp
  qed
  then show ?thesis by (simp add: parse_pr_numbers_def)
qed

subsection \<open>Expansion in input order\<close>

lemma py_range_half_open:
  "set (py_range lo hi) = {lo..<hi}" "distinct (py_range lo hi)" "sorted (py_range lo hi)"
  "length (py_range lo hi) = nat (hi - lo)"
  by (auto simp: py_range_def)

lemma token_expansion_range:
  assumes "numeral_token lo" "numeral_token hi"
  shows "token_expansion (lo @ ''-'' @ hi) = py_range (digits_value lo) (digits_value hi)"
  using re_match_range_prefix[OF assms, of "[]"] by (simp add: token_expansion_def)

lemma token_expansion_literal:
  assumes "numeral_token ds"
  shows "token_expansion ds = [digits_value ds]"
proof -
  have dw: "dropWhile is_digit ds = []"
    using assms by (simp add: numeral_token_def list_all_iff)
  have "re_match_range ds = None"
    unfolding re_match_range_def Let_def dw by simp
  then show ?thesis
    using py_int_numeral[OF assms] by (simp add: token_expansion_def)
qed



subsection \<open>Tokens with trailing characters\<close>



subsection \<open>Ranges that are empty\<close>

text \<open>
  Claim C10. A range token \<open>a-b\<close> whose lower bound is not below its upper bound adds
  no change to the list: the parser prints nothing, does not exit, and returns the empty
  expansion.
\<close>

theorem empty_range_is_silent:
  assumes "numeral_token a" "numeral_token b" "digits_value b \<le> digits_value a"
  shows "parse_pr_numbers [a @ ''-'' @ b] = ([], Inr [])"
proof -
  have m': "re_match_range (a @ ''-'' @ b) = Some (a, b)"
    using re_match_range_prefix[OF assms(1,2), of "[]"] by simp
  then have wf: "list_all well_formed_token [a @ ''-'' @ b]"
    by (simp add: well_formed_token_def)
  have "py_range (digits_value a) (digits_value b) = []"
    using assms(3) by (simp add: py_range_def)
  then show ?thesis
    using parse_loop_well_formed[OF wf, of "[]"] m'
    by (simp add: parse_pr_numbers_def token_expansion_def)
qed

theorem empty_range_is_silent_witness:
  "numeral_token ''7'' \<and> numeral_token ''5'' \<and> digits_value ''5'' \<le> digits_value ''7'' \<and>
   parse_pr_numbers [''7-5''] = ([], Inr [])"
proof -
  have a: "numeral_token ''7''" and b: "numeral_token ''5''" by code_simp+
  have c: "digits_value ''5'' \<le> digits_value ''7''" by code_simp
  show ?thesis using empty_range_is_silent[OF a b c] a b c by simp
qed

subsection \<open>The message for a malformed token\<close>

text \<open>
  Claim C6. On the token \<^verbatim>\<open>abc\<close> the parser exits with status 1 and returns no list, and
  \<^verbatim>\<open>pr_command\<close> ends there, before any workspace is created. But the line printed on
  the error stream does not name the token: the message is formatted from the match
  object, which is \<^verbatim>\<open>None\<close> in that branch.
\<close>

theorem malformed_token_message:
  "parse_pr_numbers [''abc''] = ([PrintErr ''expected number, got None''], Inl (SystemExit 1)) \<and>
   pr_command sample_env (Pr None ''ofborg'' ''merge'' [''abc''] [] []) =
     ([PrintErr ''expected number, got None''], Some (SystemExit 1))"
  by code_simp

section \<open>The batch orchestrator\<close>

subsection \<open>The acquisition and build loop, change by change\<close>

lemma outcomes_append:
  "outcomes E args i (xs @ ys) = outcomes E args i xs @ outcomes E args (i + length xs) ys"
  by (induction xs arbitrary: i) auto

lemma length_outcomes [simp]: "length (outcomes E args i prs) = length prs"
  by (induction prs arbitrary: i) auto

lemma map_fst_outcomes [simp]: "map fst (outcomes E args i prs) = prs"
  by (induction prs arbitrary: i) auto

lemma build_loop_char:
  "build_loop E args i prs stack ctxs =
     (concat (map (build_events args) (attempted (outcomes E args i prs))),
      rev (acquired (attempted (outcomes E args i prs))) @ stack,
      case first_fatal (outcomes E args i prs) of
        Some e \<Rightarrow> Inl e
      | None \<Rightarrow> Inr (ctxs @ retained (outcomes E args i prs)))"
proof (induction prs arbitrary: i stack ctxs)
  case Nil
  show ?case by simp
next
  case (Cons pr prs)
  show ?case
  proof (cases "Worktree_new E i (pr_worktree_name pr)")
    case (Inl e)
    then show ?thesis by (simp add: change_outcome_def)
  next
    case (Inr w)
    show ?thesis
    proof (cases "build_pr E i (pr_review args w) pr")
      case (Inl e)
      with Inr show ?thesis
        by (simp add: change_outcome_def Cons.IH split: option.splits)
    next
      case attrs: (Inr attrs)
      with Inr show ?thesis
        by (simp add: change_outcome_def Cons.IH split: option.splits)
    qed
  qed
qed


subsection \<open>What the parts of a run trace\<close>

lemma parse_loop_trace:
  "parse_loop toks prs = (evs, r) \<Longrightarrow>
     (case r of Inr prs' \<Rightarrow> evs = []
      | Inl e \<Rightarrow> list_all plain evs \<and> entered evs = [] \<and> exited evs = [])"
  by (induction toks arbitrary: prs) (auto split: option.splits)


lemma entered_append [simp]: "entered (xs @ ys) = entered xs @ entered ys"
  by (induction xs rule: entered.induct) auto

lemma exited_append [simp]: "exited (xs @ ys) = exited xs @ exited ys"
  by (induction xs rule: exited.induct) auto

lemma launched_append [simp]: "launched (xs @ ys) = launched xs @ launched ys"
  by (induction xs rule: launched.induct) auto

lemma map_Exit_trace [simp]:
  "entered (map Exit ws) = []" "exited (map Exit ws) = ws" "launched (map Exit ws) = []"
  by (induction ws) auto

lemma build_events_trace:
  "entered (concat (map (build_events args) cs)) = acquired cs"
  "exited (concat (map (build_events args) cs)) = []"
  "launched (concat (map (build_events args) cs)) = []"
  "list_all plain (concat (map (build_events args) cs))"
  by (induction cs rule: acquired.induct) auto



lemma shell_loop_trace:
  "shell_loop E j cs = (evs, r) \<Longrightarrow> list_all plain evs \<and> entered evs = [] \<and> exited evs = []"
proof (induction cs arbitrary: j evs r)
  case Nil
  then show ?case by simp
next
  case (Cons c cs)
  obtain pr w attrs where c: "c = (pr, w, attrs)" by (cases c)
  show ?case
  proof (cases "nix_shell E j attrs")
    case None
    obtain evs' r' where rec: "shell_loop E (Suc j) cs = (evs', r')"
      by (cases "shell_loop E (Suc j) cs")
    from Cons.prems c None rec have "evs = handoff (pr, w, attrs) @ evs'"
      by simp
    with Cons.IH[OF rec] show ?thesis by simp
  next
    case (Some e)
    with Cons.prems c have "evs = handoff (pr, w, attrs)" by simp
    then show ?thesis by simp
  qed
qed

subsection \<open>Batches in which every change builds or fails to build\<close>




lemma retained_le: "length (retained cs) \<le> length cs"
  by (induction cs rule: retained.induct) auto


subsection \<open>The shape of every run\<close>

lemma plain_trace:
  "list_all plain evs \<Longrightarrow> exited evs = [] \<and> filter is_buildenv evs = [] \<and> takeWhile (\<lambda>e. \<not> is_exit e) (evs @ map Exit ws) = evs"
proof (induction evs)
  case Nil
  show ?case by (cases ws) auto
next
  case (Cons e evs)
  then show ?case by (cases e) auto
qed

lemma filter_buildenv_Exit [simp]: "filter is_buildenv (map Exit ws) = []"
  by (induction ws) auto

lemma pr_body_shape:
  assumes "pr_body E args prs = (evs, stack, r)"
  shows "list_all plain evs \<and> entered evs = rev stack"
proof (cases "first_fatal (outcomes E args 0 prs)")
  case (Some e)
  with assms show ?thesis
    by (auto simp: pr_body_def build_loop_char build_events_trace)
next
  case None
  obtain evs2 r2 where sh: "shell_loop E 0 (retained (outcomes E args 0 prs)) = (evs2, r2)"
    by (cases "shell_loop E 0 (retained (outcomes E args 0 prs))")
  from assms None sh
  have "evs = concat (map (build_events args) (attempted (outcomes E args 0 prs))) @ evs2"
    and "stack = rev (acquired (attempted (outcomes E args 0 prs)))"
    by (auto simp: pr_body_def build_loop_char split: option.splits)
  with shell_loop_trace[OF sh] show ?thesis
    by (simp add: build_events_trace)
qed

lemma pr_command_shape:
  "\<exists>body ws. fst (pr_command E args) = body @ map Exit ws \<and> list_all plain body \<and>
             entered body = rev ws"
proof (cases args)
  case (Rev br cm ba pk)
  then have "fst (pr_command E args) = [] @ map Exit [] \<and> list_all plain [] \<and>
             entered [] = rev ([] :: Worktree list)" by simp
  then show ?thesis by blast
next
  case (Pr tok ev co num ba pk)
  obtain evs0 r0 where p: "parse_loop num [] = (evs0, r0)" by (cases "parse_loop num []")
  show ?thesis
  proof (cases r0)
    case (Inl e)
    with p Pr have "fst (pr_command E args) = evs0 @ map Exit []"
      by (simp add: parse_pr_numbers_def Let_def)
    moreover from parse_loop_trace[OF p] Inl have "list_all plain evs0" "entered evs0 = rev []"
      by simp_all
    ultimately show ?thesis by blast
  next
    case (Inr prs)
    with parse_loop_trace[OF p] have e0: "evs0 = []" by simp
    obtain evs stack r where b: "pr_body E args prs = (evs, stack, r)"
      by (cases "pr_body E args prs") auto
    from p Pr Inr e0 b have "fst (pr_command E args) = evs @ map Exit stack"
      by (simp add: parse_pr_numbers_def Let_def)
    with pr_body_shape[OF b] show ?thesis by blast
  qed
qed

subsection \<open>Release of the workspaces\<close>

text \<open>
  Claim C4. In every run of \<^verbatim>\<open>pr_command\<close>, whatever the collaborators answer, the
  workspaces are released in the reverse of the order in which they were entered, each
  entered workspace once, and the releases are the last events of the trace: nothing,
  in particular no failure notice and no build, comes after the first release. So the
  workspace of a change that fails to build is held until the scope unwinds at the end
  of the command.
\<close>

theorem workspaces_released_at_scope_end:
  "exited (fst (pr_command E args)) = rev (entered (fst (pr_command E args))) \<and>
   fst (pr_command E args) =
     takeWhile (\<lambda>e. \<not> is_exit e) (fst (pr_command E args)) @
     map Exit (exited (fst (pr_command E args)))"
proof -
  obtain body ws where t: "fst (pr_command E args) = body @ map Exit ws"
    and pl: "list_all plain body" and en: "entered body = rev ws"
    using pr_command_shape by blast
  from plain_trace[OF pl, of ws] have ex: "exited body = []"
    and tw: "takeWhile (\<lambda>e. \<not> is_exit e) (body @ map Exit ws) = body" by simp_all
  show ?thesis unfolding t using ex tw en by simp
qed

theorem workspaces_released_at_scope_end_witness:
  "entered (fst (pr_command sample_env (Pr None ''ofborg'' ''merge'' [''1'', ''2'', ''4''] [] []))) =
     [Worktree ''pr-1'' ''/review/pr-1'' ''nixpkgs=/review/pr-1'',
      Worktree ''pr-2'' ''/review/pr-2'' ''nixpkgs=/review/pr-2'',
      Worktree ''pr-4'' ''/review/pr-4'' ''nixpkgs=/review/pr-4''] \<and>
   exited (fst (pr_command sample_env (Pr None ''ofborg'' ''merge'' [''1'', ''2'', ''4''] [] []))) =
     [Worktree ''pr-4'' ''/review/pr-4'' ''nixpkgs=/review/pr-4'',
      Worktree ''pr-2'' ''/review/pr-2'' ''nixpkgs=/review/pr-2'',
      Worktree ''pr-1'' ''/review/pr-1'' ''nixpkgs=/review/pr-1'']"
proof -
  let ?A = "Pr None ''ofborg'' ''merge'' [''1'', ''2'', ''4''] [] []"
  have en: "entered (fst (pr_command sample_env ?A)) =
     [Worktree ''pr-1'' ''/review/pr-1'' ''nixpkgs=/review/pr-1'',
      Worktree ''pr-2'' ''/review/pr-2'' ''nixpkgs=/review/pr-2'',
      Worktree ''pr-4'' ''/review/pr-4'' ''nixpkgs=/review/pr-4'']"
    by code_simp
  have "exited (fst (pr_command sample_env ?A)) = rev (entered (fst (pr_command sample_env ?A)))"
    by (rule workspaces_released_at_scope_end[THEN conjunct1])
  with en show ?thesis by simp
qed

subsection \<open>Exit status of a batch\<close>






subsection \<open>Shell handoffs\<close>



subsection \<open>Which exceptions the loop catches\<close>



section \<open>The single-change orchestrator\<close>

text \<open>
  Claim C7. When the ref does not resolve, \<^verbatim>\<open>rev_command\<close> has called the resolver and
  nothing else: no workspace is created, no review step runs, and the exception of the
  resolver leaves the function.
\<close>

theorem unresolved_ref_is_fatal:
  assumes "git_rev_parse E cm = Inl e"
  shows "rev_command E (Rev br cm ba pk) = ([GitRevParse cm], Some e)"
  using assms by simp

theorem unresolved_ref_is_fatal_witness:
  "git_rev_parse sample_env ''nosuchref'' = Inl CalledProcessError \<and>
   rev_command sample_env (Rev ''master'' ''nosuchref'' [] []) =
     ([GitRevParse ''nosuchref''], Some CalledProcessError)"
proof -
  have h: "git_rev_parse sample_env ''nosuchref'' = Inl CalledProcessError"
    by (simp add: sample_env_def)
  show ?thesis using unresolved_ref_is_fatal[OF h] h by simp
qed

section \<open>The process-wide environment scope\<close>

lemma func_no_buildenv: "filter is_buildenv (fst (func args E)) = []"
proof (cases args)
  case (Pr tok ev co num ba pk)
  obtain body ws where t: "fst (pr_command E args) = body @ map Exit ws"
    and pl: "list_all plain body"
    using pr_command_shape by blast
  from plain_trace[OF pl, of ws] t Pr show ?thesis by (simp add: func_def)
next
  case (Rev br cm ba pk)
  then show ?thesis
    by (simp add: func_def Let_def split: sum.splits)
qed

text \<open>
  Claim C8, as amended. For every invocation whose command line \<^verbatim>\<open>parse_args\<close> accepts,
  whichever subcommand it names: the scope is entered once, before the subcommand
  starts, and torn down once, after the subcommand has ended, whether it returned,
  exited or raised; the outcome of the subcommand is the outcome of \<^verbatim>\<open>main\<close>.
\<close>

theorem buildenv_wraps_dispatch:
  assumes "parse_args argparse command raw_args = Inr args"
  shows "main E argparse command raw_args =
           (BuildenvEnter # fst (func args E) @ [BuildenvExit], snd (func args E)) \<and>
         filter is_buildenv (fst (main E argparse command raw_args)) =
           [BuildenvEnter, BuildenvExit]"
proof -
  have m: "main E argparse command raw_args =
           (BuildenvEnter # fst (func args E) @ [BuildenvExit], snd (func args E))"
    using assms by (simp add: main_def split: prod.splits)
  show ?thesis unfolding m by (simp add: func_no_buildenv)
qed

theorem buildenv_wraps_dispatch_witness:
  "parse_args sample_argparse ''nix-review'' [''rev'', ''HEAD''] = Inr (Rev ''master'' ''HEAD'' [] []) \<and>
   filter is_buildenv (fst (main sample_env sample_argparse ''nix-review'' [''rev'', ''HEAD''])) =
     [BuildenvEnter, BuildenvExit]"
proof -
  have h: "parse_args sample_argparse ''nix-review'' [''rev'', ''HEAD''] =
             Inr (Rev ''master'' ''HEAD'' [] [])"
    by (simp add: parse_args_def sample_argparse_def)
  have "filter is_buildenv (fst (main sample_env sample_argparse ''nix-review'' [''rev'', ''HEAD''])) =
          [BuildenvEnter, BuildenvExit]"
    by (rule buildenv_wraps_dispatch[OF h, of sample_env, THEN conjunct2])
  with h show ?thesis by blast
qed

text \<open>
  Claim C8 as stated says this of every invocation. The arguments are parsed before
  the scope is entered, so an invocation without a subcommand ends with status 2 and
  the scope is never entered.
\<close>

theorem buildenv_not_entered_counterexample:
  "\<not> (filter is_buildenv (fst (main sample_env sample_argparse ''nix-review'' [])) =
        [BuildenvEnter, BuildenvExit]) \<and>
   main sample_env sample_argparse ''nix-review'' [] = ([], Some (SystemExit 2))"
  by (simp add: main_def parse_args_def)

end
